theory Spec2Isabelle
  imports Main
begin

section \<open>JavaScript values crossing the process boundary\<close>

text \<open>
  Payloads of \<^verbatim>\<open>webContents.send\<close> and results of \<^verbatim>\<open>ipcMain.handle\<close> handlers are
  plain JavaScript values. Numbers that occur in the modelled code are small integers
  (the simulated percentage), so a number is an \<open>int\<close>.
\<close>

datatype js =
    JUndefined
  | JNull
  | JBool bool
  | JNum int
  | JStr string
  | JObj "(string \<times> js) list"

text \<open>
  The argument of the updater library's \<^verbatim>\<open>error\<close> callback: \<^verbatim>\<open>null\<close>, \<^verbatim>\<open>undefined\<close> or an
  \<^verbatim>\<open>Error\<close> object, of which only the \<^verbatim>\<open>message\<close> string is read.
\<close>

datatype js_err = ErrNull | ErrUndefined | ErrObject string

text \<open>The six callbacks of \<^verbatim>\<open>autoUpdater\<close> the main process subscribes to.\<close>

datatype updater_event =
    CheckingForUpdate
  | UpdateAvailable js
  | UpdateNotAvailable js
  | DownloadProgress js
  | UpdateDownloaded js
  | UpdaterError js_err

text \<open>
  What a call into the updater library does: it returns a value, or it throws an
  \<^verbatim>\<open>Error\<close> with the given message (the handlers read \<^verbatim>\<open>(error as Error).message\<close>).
\<close>

datatype outcome = Returns js | Throws string

datatype lib_call = CheckForUpdates | DownloadUpdate | QuitAndInstall

section \<open>The main process (src/main/index.ts)\<close>

text \<open>
  Timers of the dev-mode simulator. \<open>SimAvailable\<close> is the callback of the
  \<^verbatim>\<open>setTimeout(..., 800)\<close> in the \<^verbatim>\<open>update-check\<close> handler; \<open>SimDownload pct\<close> is the callback
  of the \<^verbatim>\<open>setInterval(..., 300)\<close> in the \<^verbatim>\<open>update-download\<close> handler together with the
  current value of its closure variable \<^verbatim>\<open>pct\<close>.
\<close>

datatype timer_job = SimAvailable | SimDownload nat

datatype timer = Timer (tid: nat) (due: nat) (job: timer_job)

text \<open>
  The environment of the main process: \<^verbatim>\<open>app.isPackaged\<close>, \<^verbatim>\<open>app.getVersion()\<close>, and the
  successive values of \<^verbatim>\<open>Math.floor(Math.random() * 20)\<close> (each in \<open>{0..19}\<close> in
  JavaScript; nothing below depends on that bound).
\<close>

record env =
  isPackaged :: bool
  getVersion :: string
  random20 :: "nat \<Rightarrow> nat"

text \<open>
  The state of the main process. \<open>mainWindow\<close> is the module variable
  (\<^verbatim>\<open>BrowserWindow | null\<close>, windows numbered in creation order); \<open>listening\<close> says that
  the \<^verbatim>\<open>whenReady\<close> callback has run and so the handlers are registered. \<open>sent\<close>,
  \<open>lib_calls\<close> and \<open>replies\<close> log, in order, the calls of \<^verbatim>\<open>webContents.send\<close>, the calls
  into the updater library, and what the \<^verbatim>\<open>ipcMain.handle\<close> handlers returned (\<open>Inl\<close> would
  be an exception leaving a handler). \<open>clock\<close> is the time in milliseconds, \<open>timers\<close> the
  pending timers in the order they were armed.
\<close>

record main_state =
  mainWindow :: "nat option"
  created :: nat
  listening :: bool
  sent :: "(string \<times> js) list"
  lib_calls :: "lib_call list"
  replies :: "(string + js) list"
  clock :: nat
  timers :: "timer list"
  next_timer :: nat
  draws :: nat

definition initial :: main_state where
  "initial = \<lparr>mainWindow = None, created = 0, listening = False, sent = [],
     lib_calls = [], replies = [], clock = 0, timers = [], next_timer = 0, draws = 0\<rparr>"

definition createWindow :: "main_state \<Rightarrow> main_state" where
  "createWindow s = s\<lparr>mainWindow := Some (created s), created := Suc (created s)\<rparr>"

text \<open>
  \<^verbatim>\<open>mainWindow?.webContents.send(channel, payload)\<close>: nothing happens on \<^verbatim>\<open>null\<close>. This
  is the send to a window that is open; the code never sets \<^verbatim>\<open>mainWindow\<close> back to \<^verbatim>\<open>null\<close>,
  and what becomes of a send once the window has been closed is described with the life of
  the window below.
\<close>

definition send :: "string \<Rightarrow> js \<Rightarrow> main_state \<Rightarrow> main_state" where
  "send channel payload s =
     (case mainWindow s of
        None \<Rightarrow> s
      | Some w \<Rightarrow> s\<lparr>sent := sent s @ [(channel, payload)]\<rparr>)"

text \<open>The six \<^verbatim>\<open>autoUpdater.on(...)\<close> handlers (the same in both versions of the file).\<close>

fun autoUpdater_on :: "updater_event \<Rightarrow> main_state \<Rightarrow> main_state" where
  "autoUpdater_on CheckingForUpdate s = send ''checking-for-update'' JUndefined s"
| "autoUpdater_on (UpdateAvailable info) s = send ''update-available'' info s"
| "autoUpdater_on (UpdateNotAvailable info) s = send ''update-not-available'' info s"
| "autoUpdater_on (DownloadProgress progressObj) s = send ''download-progress'' progressObj s"
| "autoUpdater_on (UpdateDownloaded info) s = send ''update-downloaded'' info s"
| "autoUpdater_on (UpdaterError err) s =
     send ''update-error''
       (case err of
          ErrNull \<Rightarrow> JStr ''unknown''
        | ErrUndefined \<Rightarrow> JStr ''unknown''
        | ErrObject message \<Rightarrow> JStr message) s"

text \<open>The channel on which each callback is forwarded.\<close>

fun channel_of :: "updater_event \<Rightarrow> string" where
  "channel_of CheckingForUpdate = ''checking-for-update''"
| "channel_of (UpdateAvailable info) = ''update-available''"
| "channel_of (UpdateNotAvailable info) = ''update-not-available''"
| "channel_of (DownloadProgress progressObj) = ''download-progress''"
| "channel_of (UpdateDownloaded info) = ''update-downloaded''"
| "channel_of (UpdaterError err) = ''update-error''"

subsection \<open>Calls into the updater library\<close>

definition call_lib :: "lib_call \<Rightarrow> main_state \<Rightarrow> main_state" where
  "call_lib c s = s\<lparr>lib_calls := lib_calls s @ [c]\<rparr>"

text \<open>\<^verbatim>\<open>catch (error) { return { error: (error as Error).message } }\<close>\<close>

definition error_object :: "string \<Rightarrow> js" where
  "error_object message = JObj [(''error'', JStr message)]"

subsection \<open>Timers\<close>

definition arm :: "nat \<Rightarrow> timer_job \<Rightarrow> main_state \<Rightarrow> main_state" where
  "arm delay j s =
     s\<lparr>timers := timers s @ [Timer (next_timer s) (clock s + delay) j],
       next_timer := Suc (next_timer s)\<rparr>"

definition disarm :: "nat \<Rightarrow> timer list \<Rightarrow> timer list" where
  "disarm i ts = filter (\<lambda>x. tid x \<noteq> i) ts"

text \<open>
  Running a timer's callback. The timeout of the simulated check sends the synthetic
  \<^verbatim>\<open>update-available\<close>. A tick of the simulated download adds
  \<^verbatim>\<open>Math.floor(Math.random() * 20) + 5\<close> to \<^verbatim>\<open>pct\<close>, caps it at 100, sends it, and at 100 clears
  the interval and sends \<^verbatim>\<open>update-downloaded\<close>; otherwise the interval stays armed, 300 ms
  later.
\<close>

fun fire :: "env \<Rightarrow> timer \<Rightarrow> main_state \<Rightarrow> main_state" where
  "fire e (Timer i d SimAvailable) s =
     send ''update-available''
       (JObj [(''version'', JStr (getVersion e @ ''-dev'')),
              (''releaseName'', JStr (''dev-simulated-'' @ getVersion e))])
       (s\<lparr>timers := disarm i (timers s)\<rparr>)"
| "fire e (Timer i d (SimDownload pct)) s =
     (let pct1 = pct + (random20 e (draws s) + 5);
          pct2 = (if pct1 \<ge> 100 then 100 else pct1);
          s1 = send ''download-progress'' (JObj [(''percent'', JNum (int pct2))])
                 (s\<lparr>draws := Suc (draws s)\<rparr>)
      in if pct2 \<ge> 100
         then send ''update-downloaded'' (JObj [(''version'', JStr (getVersion e @ ''-dev''))])
                (s1\<lparr>timers := disarm i (timers s1)\<rparr>)
         else s1\<lparr>timers := disarm i (timers s1) @ [Timer i (d + 300) (SimDownload pct2)]\<rparr>)"

text \<open>The pending timer that is due first; among equals, the one armed first.\<close>

fun earliest :: "timer list \<Rightarrow> timer option" where
  "earliest [] = None"
| "earliest (x # xs) =
     (case earliest xs of
        None \<Rightarrow> Some x
      | Some y \<Rightarrow> if due x \<le> due y then Some x else Some y)"

lemma earliest_in: "earliest ts = Some tm \<Longrightarrow> tm \<in> set ts"
  by (induction ts arbitrary: tm) (auto split: option.splits if_splits)

lemma sum_filter_le: "(\<Sum>x\<leftarrow>filter P ts. f x) \<le> (\<Sum>x\<leftarrow>ts. (f x :: nat))"
  by (induction ts) auto

lemma sum_disarm:
  "tm \<in> set ts \<Longrightarrow>
   (\<Sum>x\<leftarrow>disarm (tid tm) ts. f x) + f tm \<le> (\<Sum>x\<leftarrow>ts. (f x :: nat))"
proof (induction ts)
  case Nil
  then show ?case by simp
next
  case (Cons a ts)
  show ?case
  proof (cases "tid a = tid tm")
    case True
    have "(\<Sum>x\<leftarrow>disarm (tid tm) ts. f x) \<le> (\<Sum>x\<leftarrow>ts. f x)"
      unfolding disarm_def by (rule sum_filter_le)
    moreover have "f a = f tm \<or> tm \<in> set ts" using Cons.prems by auto
    ultimately show ?thesis using True Cons.IH by (auto simp: disarm_def)
  next
    case False
    then have "tm \<in> set ts" using Cons.prems by auto
    then show ?thesis using False Cons.IH by (simp add: disarm_def)
  qed
qed

lemma timers_send [simp]: "timers (send c p s) = timers s"
  by (simp add: send_def split: option.splits)

lemma timers_fire:
  "timers (fire e tm s) = disarm (tid tm) (timers s) \<or>
   (\<exists>j. timers (fire e tm s) = disarm (tid tm) (timers s) @ [Timer (tid tm) (due tm + 300) j])"
proof (cases tm)
  case (Timer i d j)
  then show ?thesis by (cases j) (simp_all add: Let_def)
qed

text \<open>
  Letting time pass until \<open>t\<close>: every timer due at or before \<open>t\<close> fires, the earliest
  first. An interval that is armed again is due 300 ms later, so only finitely many
  callbacks run before \<open>t\<close>.
\<close>

function run_until :: "env \<Rightarrow> nat \<Rightarrow> main_state \<Rightarrow> main_state" where
  "run_until e t s =
     (case earliest (timers s) of
        None \<Rightarrow> s\<lparr>clock := t\<rparr>
      | Some tm \<Rightarrow> if due tm \<le> t then run_until e t (fire e tm s) else s\<lparr>clock := t\<rparr>)"
  by pat_completeness auto
termination
proof (relation "measure (\<lambda>(e, t, s). \<Sum>x\<leftarrow>timers s. Suc t - due x)")
  show "wf (measure (\<lambda>(e, t, s). \<Sum>x\<leftarrow>timers s. Suc t - due x))" by simp
next
  fix e :: env and t :: nat and s :: main_state and tm :: timer
  assume a: "earliest (timers s) = Some tm" and b: "due tm \<le> t"
  have mem: "tm \<in> set (timers s)" using a by (rule earliest_in)
  have le: "(\<Sum>x\<leftarrow>disarm (tid tm) (timers s). Suc t - due x) + (Suc t - due tm)
        \<le> (\<Sum>x\<leftarrow>timers s. Suc t - due x)"
    using mem by (rule sum_disarm)
  have "(\<Sum>x\<leftarrow>timers (fire e tm s). Suc t - due x) < (\<Sum>x\<leftarrow>timers s. Suc t - due x)"
    using timers_fire [of e tm s]
  proof
    assume "timers (fire e tm s) = disarm (tid tm) (timers s)"
    then show ?thesis using le b by simp
  next
    assume "\<exists>j. timers (fire e tm s) =
      disarm (tid tm) (timers s) @ [Timer (tid tm) (due tm + 300) j]"
    then obtain j where
      "timers (fire e tm s) = disarm (tid tm) (timers s) @ [Timer (tid tm) (due tm + 300) j]" ..
    then have "(\<Sum>x\<leftarrow>timers (fire e tm s). Suc t - due x)
      = (\<Sum>x\<leftarrow>disarm (tid tm) (timers s). Suc t - due x) + (Suc t - (due tm + 300))"
      by simp
    then show ?thesis using le b by linarith
  qed
  then show "((e, t, fire e tm s), (e, t, s))
      \<in> measure (\<lambda>(e, t, s). \<Sum>x\<leftarrow>timers s. Suc t - due x)"
    by simp
qed

declare run_until.simps [simp del]

subsection \<open>The \<^verbatim>\<open>ipcMain.handle\<close> handlers\<close>

text \<open>
  Each handler gets the outcome of the library call it may make and returns what the
  \<^verbatim>\<open>invoke\<close> promise settles with: \<open>Inr\<close> a value, \<open>Inl\<close> an exception that leaves the
  handler. First the handlers of src/main/index.ts.
\<close>

definition get_app_version :: "env \<Rightarrow> main_state \<Rightarrow> (string + js) \<times> main_state" where
  "get_app_version e s = (Inr (JStr (getVersion e)), s)"

definition update_check :: "outcome \<Rightarrow> main_state \<Rightarrow> (string + js) \<times> main_state" where
  "update_check oc s =
     (case oc of
        Returns v \<Rightarrow> (Inr v, call_lib CheckForUpdates s)
      | Throws message \<Rightarrow> (Inr (error_object message), call_lib CheckForUpdates s))"

definition update_download :: "outcome \<Rightarrow> main_state \<Rightarrow> (string + js) \<times> main_state" where
  "update_download oc s =
     (case oc of
        Returns v \<Rightarrow> (Inr v, call_lib DownloadUpdate s)
      | Throws message \<Rightarrow> (Inr (error_object message), call_lib DownloadUpdate s))"

definition update_install :: "outcome \<Rightarrow> main_state \<Rightarrow> (string + js) \<times> main_state" where
  "update_install oc s =
     (case oc of
        Returns v \<Rightarrow> (Inr (JObj [(''ok'', JBool True)]), call_lib QuitAndInstall s)
      | Throws message \<Rightarrow> (Inr (error_object message), call_lib QuitAndInstall s))"

text \<open>
  The later version of the file adds the dev-mode simulator: when the app is not
  packaged, \<^verbatim>\<open>update-check\<close> and \<^verbatim>\<open>update-download\<close> do not call the library but send
  synthetic events from timers and return \<^verbatim>\<open>{ simulated: true }\<close>.
\<close>

definition update_check_sim ::
  "env \<Rightarrow> outcome \<Rightarrow> main_state \<Rightarrow> (string + js) \<times> main_state" where
  "update_check_sim e oc s =
     (if \<not> isPackaged e
      then (Inr (JObj [(''simulated'', JBool True)]),
            arm 800 SimAvailable (send ''checking-for-update'' JUndefined s))
      else (case oc of
              Returns v \<Rightarrow> (Inr v, call_lib CheckForUpdates s)
            | Throws message \<Rightarrow> (Inr (error_object message), call_lib CheckForUpdates s)))"

definition update_download_sim ::
  "env \<Rightarrow> outcome \<Rightarrow> main_state \<Rightarrow> (string + js) \<times> main_state" where
  "update_download_sim e oc s =
     (if \<not> isPackaged e
      then (Inr (JObj [(''simulated'', JBool True)]), arm 300 (SimDownload 0) s)
      else (case oc of
              Returns v \<Rightarrow> (Inr v, call_lib DownloadUpdate s)
            | Throws message \<Rightarrow> (Inr (error_object message), call_lib DownloadUpdate s)))"

subsection \<open>The main process as a reactive system\<close>

datatype request = GetAppVersion | UpdateCheck | UpdateDownload | UpdateInstall

text \<open>
  What happens to the main process: \<^verbatim>\<open>app.whenReady()\<close> resolves, the app is activated
  (with the number of open windows), the updater library calls back, the renderer
  invokes a handler (with the outcome of the library call the handler may make), or
  time passes.
\<close>

datatype input =
    AppReady
  | Activate nat
  | Updater updater_event
  | Invoke request outcome
  | Elapse nat

text \<open>The two versions of the file: without and with the dev-mode simulator.\<close>

datatype variant = Plain | Simulating

fun handle :: "variant \<Rightarrow> env \<Rightarrow> request \<Rightarrow> outcome \<Rightarrow> main_state \<Rightarrow> (string + js) \<times> main_state" where
  "handle v e GetAppVersion oc s = get_app_version e s"
| "handle Plain e UpdateCheck oc s = update_check oc s"
| "handle Simulating e UpdateCheck oc s = update_check_sim e oc s"
| "handle Plain e UpdateDownload oc s = update_download oc s"
| "handle Simulating e UpdateDownload oc s = update_download_sim e oc s"
| "handle v e UpdateInstall oc s = update_install oc s"

text \<open>
  The \<^verbatim>\<open>whenReady\<close> callback registers every handler and then creates the window, in one
  turn of the event loop; before it, nothing listens.
\<close>

fun main_step :: "variant \<Rightarrow> env \<Rightarrow> input \<Rightarrow> main_state \<Rightarrow> main_state" where
  "main_step v e AppReady s =
     (if listening s then s else createWindow (s\<lparr>listening := True\<rparr>))"
| "main_step v e (Activate n) s =
     (if listening s \<and> n = 0 then createWindow s else s)"
| "main_step v e (Updater ev) s =
     (if listening s then autoUpdater_on ev s else s)"
| "main_step v e (Invoke r oc) s =
     (if listening s
      then (case handle v e r oc s of (reply, s') \<Rightarrow> s'\<lparr>replies := replies s' @ [reply]\<rparr>)
      else s)"
| "main_step v e (Elapse d) s = run_until e (clock s + d) s"

fun run :: "variant \<Rightarrow> env \<Rightarrow> input list \<Rightarrow> main_state \<Rightarrow> main_state" where
  "run v e [] s = s"
| "run v e (i # ins) s = run v e ins (main_step v e i s)"

subsection \<open>The life of the window\<close>

text \<open>
  The user can close the window. The code does not notice: \<^verbatim>\<open>mainWindow\<close> keeps referring
  to the destroyed window, and the \<^verbatim>\<open>window-all-closed\<close> handler quits the app unless the
  platform is \<^verbatim>\<open>darwin\<close>, where the app stays alive without a window until \<^verbatim>\<open>activate\<close>
  creates a new one. A message sent to a destroyed window is not delivered. So a process
  is the state above together with whether the window \<^verbatim>\<open>mainWindow\<close> refers to has been
  destroyed and whether the app is still running; the functions above describe the process
  while its window is open.
\<close>

record process =
  main :: main_state
  destroyed :: bool
  running :: bool

definition process_of :: "main_state \<Rightarrow> process" where
  "process_of s = \<lparr>main = s, destroyed = False, running = True\<rparr>"

text \<open>
  The window is closed and \<^verbatim>\<open>window-all-closed\<close> runs:
  \<^verbatim>\<open>if (process.platform !== 'darwin') app.quit()\<close>.
\<close>

definition window_all_closed :: "bool \<Rightarrow> process \<Rightarrow> process" where
  "window_all_closed darwin p =
     (if running p \<and> mainWindow (main p) \<noteq> None \<and> \<not> destroyed p
      then p\<lparr>destroyed := True, running := darwin\<rparr>
      else p)"

text \<open>\<^verbatim>\<open>activate\<close>: \<^verbatim>\<open>if (BrowserWindow.getAllWindows().length === 0) createWindow()\<close>.\<close>

definition activate :: "process \<Rightarrow> process" where
  "activate p =
     (if running p \<and> listening (main p) \<and> (mainWindow (main p) = None \<or> destroyed p)
      then p\<lparr>main := createWindow (main p), destroyed := False\<rparr>
      else p)"

text \<open>
  A callback of the updater library arrives. It is received when the app runs and the
  handlers are registered; the handler's only statement is the send, which delivers
  nothing when the window has been destroyed.
\<close>

definition updater_callback :: "updater_event \<Rightarrow> process \<Rightarrow> process" where
  "updater_callback ev p =
     (if running p \<and> listening (main p) \<and> \<not> destroyed p
      then p\<lparr>main := autoUpdater_on ev (main p)\<rparr>
      else p)"

section \<open>The bridge (src/preload/index.ts)\<close>

text \<open>
  The renderer side of the boundary. \<^verbatim>\<open>ipcRenderer\<close> is an event emitter: for every channel
  it holds the registered callbacks, in order, each marked when it was registered with
  \<^verbatim>\<open>once\<close>. A callback is either the wrapper \<^verbatim>\<open>(_event, data) => listener(data)\<close> that the
  bridge builds around a listener of the UI (listeners are numbered), or a callback that
  other code of the renderer process registered on \<^verbatim>\<open>ipcRenderer\<close> directly.
\<close>

datatype callback = Bridged nat | Foreign nat

datatype registration = Registration (one_shot: bool) (target: callback)

text \<open>\<open>invoked\<close> logs every run of a callback: the channel, the callback and the data.\<close>

record renderer =
  listeners :: "string \<Rightarrow> registration list"
  invoked :: "(string \<times> callback \<times> js) list"

definition renderer_initial :: renderer where
  "renderer_initial = \<lparr>listeners = (\<lambda>channel. []), invoked = []\<rparr>"

definition ipcRenderer_on :: "string \<Rightarrow> callback \<Rightarrow> renderer \<Rightarrow> renderer" where
  "ipcRenderer_on channel cb r =
     r\<lparr>listeners := (listeners r)(channel := listeners r channel @ [Registration False cb])\<rparr>"

definition ipcRenderer_once :: "string \<Rightarrow> callback \<Rightarrow> renderer \<Rightarrow> renderer" where
  "ipcRenderer_once channel cb r =
     r\<lparr>listeners := (listeners r)(channel := listeners r channel @ [Registration True cb])\<rparr>"

definition ipcRenderer_removeAllListeners :: "string \<Rightarrow> renderer \<Rightarrow> renderer" where
  "ipcRenderer_removeAllListeners channel r = r\<lparr>listeners := (listeners r)(channel := [])\<rparr>"

text \<open>
  A message of the main process arrives on a channel: every callback registered on that
  channel runs with the data, and the \<^verbatim>\<open>once\<close> registrations are dropped.
\<close>

definition ipcRenderer_emit :: "string \<Rightarrow> js \<Rightarrow> renderer \<Rightarrow> renderer" where
  "ipcRenderer_emit channel data r =
     r\<lparr>invoked := invoked r @ map (\<lambda>g. (channel, target g, data)) (listeners r channel),
       listeners := (listeners r)
         (channel := filter (\<lambda>g. \<not> one_shot g) (listeners r channel))\<rparr>"

definition validChannels :: "string list" where
  "validChannels =
     [''checking-for-update'', ''update-available'', ''update-not-available'',
      ''download-progress'', ''update-downloaded'', ''update-error'']"

text \<open>\<^verbatim>\<open>api.updates.on\<close>, \<^verbatim>\<open>api.updates.once\<close> and \<^verbatim>\<open>api.updates.removeAllListeners\<close>.\<close>

definition updates_on :: "string \<Rightarrow> nat \<Rightarrow> renderer \<Rightarrow> renderer" where
  "updates_on channel listener r =
     (if channel \<in> set validChannels then ipcRenderer_on channel (Bridged listener) r else r)"

definition updates_once :: "string \<Rightarrow> nat \<Rightarrow> renderer \<Rightarrow> renderer" where
  "updates_once channel listener r =
     (if channel \<in> set validChannels then ipcRenderer_once channel (Bridged listener) r else r)"

definition updates_removeAllListeners :: "string \<Rightarrow> renderer \<Rightarrow> renderer" where
  "updates_removeAllListeners channel r = ipcRenderer_removeAllListeners channel r"

text \<open>
  What happens in the renderer process: the UI calls one of the three subscribe operations
  of the bridge, other code registers a callback on \<^verbatim>\<open>ipcRenderer\<close> directly, or a message
  arrives from the main process.
\<close>

datatype renderer_input =
    CallOn string nat
  | CallOnce string nat
  | CallRemoveAll string
  | ForeignOn string nat
  | Message string js

fun renderer_step :: "renderer_input \<Rightarrow> renderer \<Rightarrow> renderer" where
  "renderer_step (CallOn channel listener) r = updates_on channel listener r"
| "renderer_step (CallOnce channel listener) r = updates_once channel listener r"
| "renderer_step (CallRemoveAll channel) r = updates_removeAllListeners channel r"
| "renderer_step (ForeignOn channel n) r = ipcRenderer_on channel (Foreign n) r"
| "renderer_step (Message channel data) r = ipcRenderer_emit channel data r"

fun renderer_run :: "renderer_input list \<Rightarrow> renderer \<Rightarrow> renderer" where
  "renderer_run [] r = r"
| "renderer_run (a # as) r = renderer_run as (renderer_step a r)"

section \<open>The UI (renderer component Versions)\<close>

text \<open>The component's state: one field for each \<^verbatim>\<open>useState\<close> that the update UI reads.\<close>

record ui_state =
  appVersion :: "string option"
  availableVersion :: "string option"
  updateAvailable :: bool
  downloadProgress :: "int option"
  downloaded :: bool
  "checking" :: bool
  notAvailableMessage :: "string option"

text \<open>\<^verbatim>\<open>window.electron.process.versions\<close>, as far as it is shown.\<close>

record process_versions =
  electron :: string
  chrome :: string
  node :: string

text \<open>
  The rendered tree: text, an interpolated number, a button (its \<^verbatim>\<open>onClick\<close> handler, its
  label, whether it is disabled), and an element with a class name and children.
\<close>

datatype action = StartCheck | StartDownload | InstallAndRelaunch | ShowAppVersion

datatype element =
    Txt string
  | Num int
  | Button action string bool
  | Box string "element list"

text \<open>The em dash shown for a missing version (three bytes in UTF-8).\<close>

definition dash :: string where
  "dash = [CHR 0xE2, CHR 0x80, CHR 0x94]"

definition versions_list :: "process_versions \<Rightarrow> element" where
  "versions_list vs =
     Box ''versions''
       [Box ''electron-version'' [Txt ''Electron v'', Txt (electron vs)],
        Box ''chrome-version'' [Txt ''Chromium v'', Txt (chrome vs)],
        Box ''node-version'' [Txt ''Node v'', Txt (node vs)]]"

definition app_versions :: "ui_state \<Rightarrow> element" where
  "app_versions st =
     Box ''app-versions''
       [Box [] [Txt ''Installed: '', Txt (case appVersion st of None \<Rightarrow> dash | Some v \<Rightarrow> v)],
        Box [] [Txt ''Available: '',
                Txt (case availableVersion st of None \<Rightarrow> dash | Some v \<Rightarrow> v)]]"

definition check_button :: "ui_state \<Rightarrow> element" where
  "check_button st =
     Button StartCheck (if checking st then ''Checking...'' else ''Check for updates'')
       (checking st)"

definition update_msg :: "ui_state \<Rightarrow> element list" where
  "update_msg st =
     (case notAvailableMessage st of
        None \<Rightarrow> []
      | Some m \<Rightarrow> if m \<noteq> [] then [Box ''update-msg'' [Txt m]] else [])"

definition download_notification :: "ui_state \<Rightarrow> element list" where
  "download_notification st =
     (if updateAvailable st \<and> \<not> downloaded st
      then [Box ''update-notification''
              ([Box [] [Txt ''Update available'',
                        Txt (case availableVersion st of
                               None \<Rightarrow> []
                             | Some v \<Rightarrow> if v \<noteq> [] then '': v'' @ v else [])],
                Box ''update-actions'' [Button StartDownload ''Download'' False]]
               @ (case downloadProgress st of
                    None \<Rightarrow> []
                  | Some p \<Rightarrow> [Box [] [Txt ''Downloading: '', Num p, Txt ''%'']]))]
      else [])"

definition install_notification :: "ui_state \<Rightarrow> element list" where
  "install_notification st =
     (if downloaded st
      then [Box ''update-notification''
              [Box [] [Txt ''Update downloaded and ready to install.''],
               Box ''update-actions''
                 [Button InstallAndRelaunch ''Install and Relaunch'' False]]]
      else [])"

text \<open>The \<^verbatim>\<open>return\<close> of the first version of the component.\<close>

definition Versions :: "process_versions \<Rightarrow> ui_state \<Rightarrow> element" where
  "Versions vs st =
     Box []
       ([versions_list vs,
         app_versions st,
         Box ''update-check'' (check_button st # update_msg st)]
        @ download_notification st
        @ install_notification st)"

text \<open>
  The second version adds, after the check button, a debugging button that shows the app
  version.
\<close>

definition Versions_debug :: "process_versions \<Rightarrow> ui_state \<Rightarrow> element" where
  "Versions_debug vs st =
     Box []
       ([versions_list vs,
         app_versions st,
         Box ''update-check''
           (check_button st # Button ShowAppVersion ''Show app version'' False # update_msg st)]
        @ download_notification st
        @ install_notification st)"

text \<open>The buttons of a rendered tree, in document order.\<close>

fun buttons :: "element \<Rightarrow> (action \<times> string \<times> bool) list" where
  "buttons (Txt t) = []"
| "buttons (Num n) = []"
| "buttons (Button a label disabled) = [(a, label, disabled)]"
| "buttons (Box c children) = concat (map buttons children)"

section \<open>Concrete environments\<close>

text \<open>An unpackaged app (dev mode) and a packaged one, both at version 1.0.0.\<close>

definition dev_env :: env where
  "dev_env = \<lparr>isPackaged = False, getVersion = ''1.0.0'', random20 = (\<lambda>i. 19)\<rparr>"

definition packaged_env :: env where
  "packaged_env = \<lparr>isPackaged = True, getVersion = ''1.0.0'', random20 = (\<lambda>i. 19)\<rparr>"

section \<open>Notions used to state and prove the properties\<close>

text \<open>Once the handlers are registered there is a window.\<close>

definition window_ready :: "main_state \<Rightarrow> bool" where
  "window_ready s = (listening s \<longrightarrow> mainWindow s \<noteq> None)"

text \<open>
  The payload that corresponds to a callback: the callback's own argument, none for
  \<^verbatim>\<open>checking-for-update\<close>, and for \<^verbatim>\<open>error\<close> the message string (\<^verbatim>\<open>unknown\<close> for \<^verbatim>\<open>null\<close> and
  \<^verbatim>\<open>undefined\<close>).
\<close>

fun payload_of :: "updater_event \<Rightarrow> js" where
  "payload_of CheckingForUpdate = JUndefined"
| "payload_of (UpdateAvailable info) = info"
| "payload_of (UpdateNotAvailable info) = info"
| "payload_of (DownloadProgress progressObj) = progressObj"
| "payload_of (UpdateDownloaded info) = info"
| "payload_of (UpdaterError ErrNull) = JStr ''unknown''"
| "payload_of (UpdaterError ErrUndefined) = JStr ''unknown''"
| "payload_of (UpdaterError (ErrObject message)) = JStr message"

text \<open>
  The percentages the simulated download sends when its interval starts with \<^verbatim>\<open>pct\<close> and the
  next random draw is the \<open>k\<close>-th: each tick adds at least 5, so the recursion ends.
\<close>

function sim_percents :: "env \<Rightarrow> nat \<Rightarrow> nat \<Rightarrow> nat list" where
  "sim_percents e k pct =
     (let p = (if pct + (random20 e k + 5) \<ge> 100 then 100 else pct + (random20 e k + 5))
      in if p \<ge> 100 then [p] else p # sim_percents e (Suc k) p)"
  by pat_completeness auto
termination
  by (relation "measure (\<lambda>(e, k, pct). 100 - pct)") (auto split: if_splits)

declare sim_percents.simps [simp del]

text \<open>The messages of the simulator.\<close>

definition progress_msg :: "nat \<Rightarrow> string \<times> js" where
  "progress_msg p = (''download-progress'', JObj [(''percent'', JNum (int p))])"

definition downloaded_msg :: "env \<Rightarrow> string \<times> js" where
  "downloaded_msg e = (''update-downloaded'', JObj [(''version'', JStr (getVersion e @ ''-dev''))])"

definition available_msg :: "env \<Rightarrow> string \<times> js" where
  "available_msg e = (''update-available'',
       JObj [(''version'', JStr (getVersion e @ ''-dev'')),
             (''releaseName'', JStr (''dev-simulated-'' @ getVersion e))])"

text \<open>The error payload of the spec: an object \<^verbatim>\<open>{ error: message }\<close>.\<close>

fun is_error_payload :: "js \<Rightarrow> bool" where
  "is_error_payload (JObj [(k, JStr message)]) = (k = ''error'')"
| "is_error_payload v = False"

text \<open>
  No wrapper of the bridge is registered on the channel, and none has run for a message
  on it.
\<close>

definition unbridged :: "string \<Rightarrow> renderer \<Rightarrow> bool" where
  "unbridged channel r =
     (list_all (\<lambda>g. case target g of Bridged l \<Rightarrow> False | Foreign n \<Rightarrow> True)
        (listeners r channel)
      \<and> list_all (\<lambda>(c, cb, d). c = channel \<longrightarrow>
                     (case cb of Bridged l \<Rightarrow> False | Foreign n \<Rightarrow> True))
          (invoked r))"

text \<open>Whether a button with the given handler is rendered, and the disabled flags of those.\<close>

definition rendered :: "action \<Rightarrow> element \<Rightarrow> bool" where
  "rendered a el = (a \<in> fst ` set (buttons el))"

definition disabled_flags :: "action \<Rightarrow> element \<Rightarrow> bool list" where
  "disabled_flags a el =
     map (\<lambda>(b, label, disabled). disabled)
       (filter (\<lambda>(b, label, disabled). b = a) (buttons el))"

section \<open>Properties of the main process\<close>

subsection \<open>What each operation leaves alone\<close>

lemma mainWindow_send [simp]: "mainWindow (send c p s) = mainWindow s"
  by (simp add: send_def split: option.splits)

lemma listening_send [simp]: "listening (send c p s) = listening s"
  by (simp add: send_def split: option.splits)

lemma sent_send:
  "sent (send c p s) = (case mainWindow s of None \<Rightarrow> sent s | Some w \<Rightarrow> sent s @ [(c, p)])"
  by (simp add: send_def split: option.splits)

lemma mainWindow_fire [simp]: "mainWindow (fire e tm s) = mainWindow s"
proof (cases tm)
  case (Timer i d j)
  then show ?thesis by (cases j) (simp_all add: Let_def)
qed

lemma listening_fire [simp]: "listening (fire e tm s) = listening s"
proof (cases tm)
  case (Timer i d j)
  then show ?thesis by (cases j) (simp_all add: Let_def)
qed

lemma mainWindow_run_until [simp]: "mainWindow (run_until e t s) = mainWindow s"
proof (induction e t s rule: run_until.induct)
  case (1 e t s)
  show ?case
    using 1 by (subst run_until.simps) (simp split: option.splits)
qed

lemma listening_run_until [simp]: "listening (run_until e t s) = listening s"
proof (induction e t s rule: run_until.induct)
  case (1 e t s)
  show ?case
    using 1 by (subst run_until.simps) (simp split: option.splits)
qed

lemma mainWindow_handle: "mainWindow (snd (handle v e r oc s)) = mainWindow s"
  by (cases v; cases r; cases oc)
     (simp_all add: get_app_version_def update_check_def update_download_def
        update_install_def update_check_sim_def update_download_sim_def call_lib_def arm_def)

lemma listening_handle: "listening (snd (handle v e r oc s)) = listening s"
  by (cases v; cases r; cases oc)
     (simp_all add: get_app_version_def update_check_def update_download_def
        update_install_def update_check_sim_def update_download_sim_def call_lib_def arm_def)

lemma mainWindow_autoUpdater_on [simp]: "mainWindow (autoUpdater_on ev s) = mainWindow s"
  by (cases ev) simp_all

lemma listening_autoUpdater_on [simp]: "listening (autoUpdater_on ev s) = listening s"
  by (cases ev) simp_all

subsection \<open>Once the handlers are registered there is a window\<close>

lemma window_ready_step: "window_ready s \<Longrightarrow> window_ready (main_step v e i s)"
proof (cases i)
  case (Invoke r oc)
  assume "window_ready s"
  then show ?thesis
    using Invoke mainWindow_handle [of v e r oc s] listening_handle [of v e r oc s]
    by (auto simp: window_ready_def split: prod.splits)
qed (auto simp: window_ready_def createWindow_def)

lemma window_ready_run: "window_ready s \<Longrightarrow> window_ready (run v e ins s)"
  by (induction ins arbitrary: s) (simp_all add: window_ready_step)

lemma window_ready_initial: "window_ready initial"
  by (simp add: window_ready_def initial_def)

lemma autoUpdater_on_sent:
  "mainWindow s \<noteq> None \<Longrightarrow> \<exists>p. sent (autoUpdater_on ev s) = sent s @ [(channel_of ev, p)]"
  by (cases ev) (auto simp: sent_send)

subsection \<open>Forwarding of the library's callbacks\<close>

lemma autoUpdater_on_forwards:
  "mainWindow s \<noteq> None \<Longrightarrow>
   sent (autoUpdater_on ev s) = sent s @ [(channel_of ev, payload_of ev)]"
proof (cases ev)
  case (UpdaterError err)
  assume "mainWindow s \<noteq> None"
  then show ?thesis using UpdaterError by (cases err) (auto simp: sent_send)
qed (auto simp: sent_send)

text \<open>
  C4 (as amended): every callback of the updater library that the main process receives
  (in whatever state it has reached since start-up, in either version of the file) makes
  at most one call of \<^verbatim>\<open>webContents.send\<close> that is delivered, never more. While the window
  is open it makes exactly one, on the channel that corresponds to the callback and with
  the callback's own argument as payload (for \<^verbatim>\<open>error\<close>, the string of C10); once the window
  has been closed, and until \<^verbatim>\<open>activate\<close> has created a new one, it forwards nothing.
\<close>

theorem callback_forwarded_at_most_once:
  assumes "main p = run v e ins initial" and "listening (main p)" and "running p"
  shows "sent (main (updater_callback ev p))
           = sent (main p) @ (if destroyed p then [] else [(channel_of ev, payload_of ev)])"
proof -
  have "window_ready (run v e ins initial)"
    using window_ready_initial by (rule window_ready_run)
  then have "mainWindow (main p) \<noteq> None"
    using assms by (simp add: window_ready_def)
  then show ?thesis
    using assms by (simp add: updater_callback_def autoUpdater_on_forwards)
qed

theorem callback_forwarded_at_most_once_witness:
  "main (process_of (run Plain packaged_env [AppReady] initial))
     = run Plain packaged_env [AppReady] initial \<and>
   listening (main (process_of (run Plain packaged_env [AppReady] initial))) \<and>
   running (process_of (run Plain packaged_env [AppReady] initial)) \<and>
   sent (main (updater_callback (UpdateAvailable (JStr ''info''))
       (process_of (run Plain packaged_env [AppReady] initial))))
     = [(''update-available'', JStr ''info'')]"
proof -
  have h1: "main (process_of (run Plain packaged_env [AppReady] initial))
     = run Plain packaged_env [AppReady] initial"
    by (simp add: process_of_def)
  have h2: "listening (main (process_of (run Plain packaged_env [AppReady] initial)))"
    by (simp add: process_of_def initial_def createWindow_def)
  have h3: "running (process_of (run Plain packaged_env [AppReady] initial))"
    by (simp add: process_of_def)
  have h4: "\<not> destroyed (process_of (run Plain packaged_env [AppReady] initial))"
    by (simp add: process_of_def)
  have h5: "sent (run Plain packaged_env [AppReady] initial) = []"
    by (simp add: initial_def createWindow_def)
  show ?thesis
    using h1 h2 h3 h4 h5
      callback_forwarded_at_most_once [OF h1 h2 h3, of "UpdateAvailable (JStr ''info'')"]
    by simp
qed

text \<open>
  The claim as stated fails: on \<^verbatim>\<open>darwin\<close>, a download is started, the user closes the
  window (the app keeps running, the handlers stay registered), and the library's next
  \<^verbatim>\<open>download-progress\<close> callback forwards nothing.
\<close>

theorem callback_after_window_closed_counterexample:
  "running (window_all_closed True
      (process_of (run Plain packaged_env
         [AppReady, Invoke UpdateDownload (Returns JNull)] initial))) \<and>
   listening (main (window_all_closed True
      (process_of (run Plain packaged_env
         [AppReady, Invoke UpdateDownload (Returns JNull)] initial)))) \<and>
   sent (main (updater_callback (DownloadProgress (JObj [(''percent'', JNum 40)]))
      (window_all_closed True
        (process_of (run Plain packaged_env
           [AppReady, Invoke UpdateDownload (Returns JNull)] initial)))))
     = []"
  by (simp add: updater_callback_def window_all_closed_def process_of_def initial_def
      createWindow_def update_download_def call_lib_def)

text \<open>After \<^verbatim>\<open>activate\<close> has created a new window the same callback is forwarded again.\<close>

lemma callback_after_activate:
  "sent (main (updater_callback (DownloadProgress (JObj [(''percent'', JNum 40)]))
      (activate (window_all_closed True
        (process_of (run Plain packaged_env
           [AppReady, Invoke UpdateDownload (Returns JNull)] initial))))))
     = [(''download-progress'', JObj [(''percent'', JNum 40)])]"
  by (simp add: updater_callback_def window_all_closed_def activate_def process_of_def
      initial_def createWindow_def update_download_def call_lib_def send_def)

text \<open>
  C10: the \<^verbatim>\<open>error\<close> callback forwards, on \<^verbatim>\<open>update-error\<close>, a string and nothing else: the
  string \<^verbatim>\<open>unknown\<close> when the library's error is \<^verbatim>\<open>null\<close> or \<^verbatim>\<open>undefined\<close>, the error's
  message otherwise (and, like every send, nothing at all while there is no window).
\<close>

theorem error_forwarded_as_string:
  "sent (autoUpdater_on (UpdaterError err) s) =
     (case mainWindow s of
        None \<Rightarrow> sent s
      | Some w \<Rightarrow> sent s @ [(''update-error'',
          JStr (case err of ErrNull \<Rightarrow> ''unknown'' | ErrUndefined \<Rightarrow> ''unknown''
                | ErrObject message \<Rightarrow> message))])"
  by (cases err) (simp_all add: sent_send split: option.splits)

subsection \<open>The simulated flow\<close>

lemma sim_percents_nonempty: "sim_percents e k pct \<noteq> []"
  by (subst sim_percents.simps) (simp add: Let_def)

lemma sim_percents_ge: "x \<in> set (sim_percents e k pct) \<Longrightarrow> min pct 100 \<le> x"
proof (induction e k pct rule: sim_percents.induct)
  case (1 e k pct)
  show ?case
  proof (cases "pct + (random20 e k + 5) \<ge> 100")
    case True
    then have "sim_percents e k pct = [100]"
      by (subst sim_percents.simps) (simp add: Let_def)
    then show ?thesis using "1.prems" by simp
  next
    case False
    then have eq: "sim_percents e k pct =
        (pct + (random20 e k + 5)) # sim_percents e (Suc k) (pct + (random20 e k + 5))"
      by (subst sim_percents.simps) (simp add: Let_def)
    show ?thesis
    proof (cases "x = pct + (random20 e k + 5)")
      case True
      then show ?thesis by simp
    next
      case neq: False
      then have "x \<in> set (sim_percents e (Suc k) (pct + (random20 e k + 5)))"
        using "1.prems" eq by simp
      then have "min (pct + (random20 e k + 5)) 100 \<le> x"
        using "1.IH" [OF refl _ ] False by simp
      then show ?thesis using False by simp
    qed
  qed
qed

lemma sim_percents_sorted: "sorted (sim_percents e k pct)"
proof (induction e k pct rule: sim_percents.induct)
  case (1 e k pct)
  show ?case
  proof (cases "pct + (random20 e k + 5) \<ge> 100")
    case True
    then have "sim_percents e k pct = [100]"
      by (subst sim_percents.simps) (simp add: Let_def)
    then show ?thesis by simp
  next
    case False
    then have eq: "sim_percents e k pct =
        (pct + (random20 e k + 5)) # sim_percents e (Suc k) (pct + (random20 e k + 5))"
      by (subst sim_percents.simps) (simp add: Let_def)
    have "sorted (sim_percents e (Suc k) (pct + (random20 e k + 5)))"
      using "1.IH" [OF refl _] False by simp
    moreover have "\<forall>x \<in> set (sim_percents e (Suc k) (pct + (random20 e k + 5))).
        pct + (random20 e k + 5) \<le> x"
      using sim_percents_ge [of _ e "Suc k" "pct + (random20 e k + 5)"] False by auto
    ultimately show ?thesis using eq by simp
  qed
qed

lemma sim_percents_last: "last (sim_percents e k pct) = 100"
proof (induction e k pct rule: sim_percents.induct)
  case (1 e k pct)
  show ?case
  proof (cases "pct + (random20 e k + 5) \<ge> 100")
    case True
    then have "sim_percents e k pct = [100]"
      by (subst sim_percents.simps) (simp add: Let_def)
    then show ?thesis by simp
  next
    case False
    then have eq: "sim_percents e k pct =
        (pct + (random20 e k + 5)) # sim_percents e (Suc k) (pct + (random20 e k + 5))"
      by (subst sim_percents.simps) (simp add: Let_def)
    have "last (sim_percents e (Suc k) (pct + (random20 e k + 5))) = 100"
      using "1.IH" [OF refl _] False by simp
    then show ?thesis using eq sim_percents_nonempty by simp
  qed
qed

lemma run_until_idle: "timers s = [] \<Longrightarrow> run_until e t s = s\<lparr>clock := t\<rparr>"
  by (subst run_until.simps) simp

lemma run_until_single:
  "timers s = [tm] \<Longrightarrow> due tm \<le> t \<Longrightarrow> run_until e t s = run_until e t (fire e tm s)"
  by (subst run_until.simps) simp

lemma run_until_single_wait:
  "timers s = [tm] \<Longrightarrow> t < due tm \<Longrightarrow> run_until e t s = s\<lparr>clock := t\<rparr>"
  by (subst run_until.simps) simp

lemma download_runs:
  "timers s = [Timer i d (SimDownload pct)] \<Longrightarrow> mainWindow s = Some w \<Longrightarrow>
   draws s = k \<Longrightarrow> d + 60 * (100 - pct) \<le> t \<Longrightarrow> pct < 100 \<Longrightarrow>
   sent (run_until e t s) =
     sent s @ map progress_msg (sim_percents e k pct) @ [downloaded_msg e]"
proof (induction e k pct arbitrary: s d rule: sim_percents.induct)
  case (1 e k pct)
  let ?p = "pct + (random20 e k + 5)"
  have due: "d \<le> t" using "1.prems" by simp
  have step: "run_until e t s = run_until e t (fire e (Timer i d (SimDownload pct)) s)"
    using "1.prems"(1) due by (simp add: run_until_single)
  show ?case
  proof (cases "?p \<ge> 100")
    case True
    then have sp: "sim_percents e k pct = [100]"
      by (subst sim_percents.simps) (simp add: Let_def)
    let ?s' = "fire e (Timer i d (SimDownload pct)) s"
    have "timers ?s' = []"
      using True "1.prems" by (simp add: Let_def disarm_def)
    then have "run_until e t ?s' = ?s'\<lparr>clock := t\<rparr>" by (rule run_until_idle)
    moreover have "sent ?s' = sent s @ [progress_msg 100, downloaded_msg e]"
      using True "1.prems" by (simp add: Let_def send_def progress_msg_def downloaded_msg_def)
    ultimately show ?thesis using step sp by simp
  next
    case False
    then have sp: "sim_percents e k pct = ?p # sim_percents e (Suc k) ?p"
      by (subst sim_percents.simps) (simp add: Let_def)
    let ?s' = "fire e (Timer i d (SimDownload pct)) s"
    have t': "timers ?s' = [Timer i (d + 300) (SimDownload ?p)]"
      using False "1.prems" by (simp add: Let_def disarm_def)
    have w': "mainWindow ?s' = Some w" using "1.prems" by simp
    have k': "draws ?s' = Suc k"
      using False "1.prems" by (simp add: Let_def send_def)
    have sent': "sent ?s' = sent s @ [progress_msg ?p]"
      using False "1.prems" by (simp add: Let_def send_def progress_msg_def)
    have bound: "(d + 300) + 60 * (100 - ?p) \<le> t"
      using False "1.prems" by simp
    have "sent (run_until e t ?s') =
        sent ?s' @ map progress_msg (sim_percents e (Suc k) ?p) @ [downloaded_msg e]"
    proof (rule "1.IH" [OF _ _ t' w' k' bound])
      show "?p = (if 100 \<le> ?p then 100 else ?p)" using False by simp
      show "\<not> 100 \<le> ?p" using False by simp
      show "?p < 100" using False by simp
    qed
    then show ?thesis using step sp sent' by simp
  qed
qed

lemma run_until_pair:
  "timers s = [a, b] \<Longrightarrow> due a \<le> due b \<Longrightarrow> due a \<le> t \<Longrightarrow>
   run_until e t s = run_until e t (fire e a s)"
  by (subst run_until.simps) simp

lemma check_then_download_late:
  assumes dev: "\<not> isPackaged e"
    and s: "listening s" "mainWindow s = Some w" "timers s = []"
    and d1: "800 \<le> d1" and d2: "6300 \<le> d2"
  shows "sent (run Simulating e
            [Invoke UpdateCheck oc1, Elapse d1, Invoke UpdateDownload oc2, Elapse d2] s)
       = sent s @ [(''checking-for-update'', JUndefined), available_msg e]
           @ map progress_msg (sim_percents e (draws s) 0) @ [downloaded_msg e]"
proof -
  define s1 where "s1 = main_step Simulating e (Invoke UpdateCheck oc1) s"
  define s2 where "s2 = main_step Simulating e (Elapse d1) s1"
  define s3 where "s3 = main_step Simulating e (Invoke UpdateDownload oc2) s2"
  define s4 where "s4 = main_step Simulating e (Elapse d2) s3"
  have s1: "timers s1 = [Timer (next_timer s) (clock s + 800) SimAvailable]"
      "sent s1 = sent s @ [(''checking-for-update'', JUndefined)]"
      "mainWindow s1 = Some w" "listening s1" "draws s1 = draws s" "clock s1 = clock s"
    using dev s by (simp_all add: s1_def update_check_sim_def arm_def send_def)
  let ?f = "fire e (Timer (next_timer s) (clock s + 800) SimAvailable) s1"
  have "s2 = run_until e (clock s + d1) ?f"
    using s1 d1 by (simp add: s2_def run_until_single)
  moreover have "timers ?f = []" using s1 by (simp add: disarm_def)
  ultimately have s2_eq: "s2 = ?f\<lparr>clock := clock s + d1\<rparr>"
    by (simp add: run_until_idle)
  have s2: "timers s2 = []" "sent s2 = sent s1 @ [available_msg e]"
      "mainWindow s2 = Some w" "listening s2" "draws s2 = draws s" "clock s2 = clock s + d1"
    using s1 by (simp_all add: s2_eq disarm_def send_def available_msg_def)
  have s3: "timers s3 = [Timer (next_timer s2) (clock s + d1 + 300) (SimDownload 0)]"
      "sent s3 = sent s2" "mainWindow s3 = Some w" "draws s3 = draws s"
      "clock s3 = clock s + d1"
    using dev s2 by (simp_all add: s3_def update_download_sim_def arm_def)
  have "sent (run_until e (clock s3 + d2) s3) =
      sent s3 @ map progress_msg (sim_percents e (draws s) 0) @ [downloaded_msg e]"
    using s3(1) s3(3) s3(4)
  proof (rule download_runs)
    show "clock s + d1 + 300 + 60 * (100 - 0) \<le> clock s3 + d2" using s3 d2 by simp
    show "(0::nat) < 100" by simp
  qed
  then have "sent s4 = sent s @ [(''checking-for-update'', JUndefined), available_msg e]
           @ map progress_msg (sim_percents e (draws s) 0) @ [downloaded_msg e]"
    using s1 s2 s3 by (simp add: s4_def)
  then show ?thesis by (simp add: s1_def s2_def s3_def s4_def)
qed

lemma check_then_download_early:
  assumes dev: "\<not> isPackaged e"
    and s: "listening s" "mainWindow s = Some w" "timers s = []"
    and d1: "500 < d1" "d1 < 800" and d2: "6300 \<le> d2"
  shows "sent (run Simulating e
            [Invoke UpdateCheck oc1, Elapse d1, Invoke UpdateDownload oc2, Elapse d2] s)
       = sent s @ [(''checking-for-update'', JUndefined), available_msg e]
           @ map progress_msg (sim_percents e (draws s) 0) @ [downloaded_msg e]"
proof -
  define s1 where "s1 = main_step Simulating e (Invoke UpdateCheck oc1) s"
  define s2 where "s2 = main_step Simulating e (Elapse d1) s1"
  define s3 where "s3 = main_step Simulating e (Invoke UpdateDownload oc2) s2"
  define s4 where "s4 = main_step Simulating e (Elapse d2) s3"
  define n where "n = next_timer s"
  have s1: "timers s1 = [Timer n (clock s + 800) SimAvailable]"
      "sent s1 = sent s @ [(''checking-for-update'', JUndefined)]"
      "mainWindow s1 = Some w" "listening s1" "draws s1 = draws s" "clock s1 = clock s"
      "next_timer s1 = Suc n"
    using dev s by (simp_all add: s1_def n_def update_check_sim_def arm_def send_def)
  have s2_eq: "s2 = s1\<lparr>clock := clock s + d1\<rparr>"
    using s1 d1 by (simp add: s2_def run_until_single_wait)
  have s3: "timers s3 = [Timer n (clock s + 800) SimAvailable,
                          Timer (Suc n) (clock s + d1 + 300) (SimDownload 0)]"
      "sent s3 = sent s1" "mainWindow s3 = Some w" "draws s3 = draws s"
      "clock s3 = clock s + d1"
    using dev s1 by (simp_all add: s3_def s2_eq update_download_sim_def arm_def)
  let ?f = "fire e (Timer n (clock s + 800) SimAvailable) s3"
  have "s4 = run_until e (clock s3 + d2) ?f"
    using s3 d1 d2 by (simp add: s4_def run_until_pair)
  moreover have f: "timers ?f = [Timer (Suc n) (clock s + d1 + 300) (SimDownload 0)]"
      "sent ?f = sent s3 @ [available_msg e]" "mainWindow ?f = Some w" "draws ?f = draws s"
    using s3 by (simp_all add: disarm_def send_def available_msg_def)
  moreover have "sent (run_until e (clock s3 + d2) ?f) =
      sent ?f @ map progress_msg (sim_percents e (draws s) 0) @ [downloaded_msg e]"
    using f(1) f(3) f(4)
  proof (rule download_runs)
    show "clock s + d1 + 300 + 60 * (100 - 0) \<le> clock s3 + d2" using s3 d2 by simp
    show "(0::nat) < 100" by simp
  qed
  ultimately have "sent s4 = sent s @ [(''checking-for-update'', JUndefined), available_msg e]
           @ map progress_msg (sim_percents e (draws s) 0) @ [downloaded_msg e]"
    using s1 s3 by simp
  then show ?thesis by (simp add: s1_def s2_def s3_def s4_def)
qed

text \<open>
  C6 (as amended): in dev mode, from a state with a window and no pending timer, invoking
  check, then (more than 500 ms later, so that the first progress tick falls after the
  simulated \<^verbatim>\<open>update-available\<close>) download, and letting the download run (6300 ms are
  enough) forwards exactly: one \<^verbatim>\<open>checking-for-update\<close>, one \<^verbatim>\<open>update-available\<close> whose
  version is the app version followed by \<^verbatim>\<open>-dev\<close>, one or more \<^verbatim>\<open>download-progress\<close> whose
  percentages are non-decreasing and end at 100, and one \<^verbatim>\<open>update-downloaded\<close> with the
  same version.
\<close>

theorem simulated_check_then_download:
  assumes "\<not> isPackaged e"
    and "listening s" and "mainWindow s = Some w" and "timers s = []"
    and "500 < d1" and "6300 \<le> d2"
  shows "\<exists>ps. ps \<noteq> [] \<and> sorted ps \<and> last ps = 100 \<and>
     sent (run Simulating e
            [Invoke UpdateCheck oc1, Elapse d1, Invoke UpdateDownload oc2, Elapse d2] s)
       = sent s
         @ [(''checking-for-update'', JUndefined),
            (''update-available'',
               JObj [(''version'', JStr (getVersion e @ ''-dev'')),
                     (''releaseName'', JStr (''dev-simulated-'' @ getVersion e))])]
         @ map (\<lambda>p. (''download-progress'', JObj [(''percent'', JNum (int p))])) ps
         @ [(''update-downloaded'', JObj [(''version'', JStr (getVersion e @ ''-dev''))])]"
proof -
  have "sent (run Simulating e
            [Invoke UpdateCheck oc1, Elapse d1, Invoke UpdateDownload oc2, Elapse d2] s)
       = sent s @ [(''checking-for-update'', JUndefined), available_msg e]
           @ map progress_msg (sim_percents e (draws s) 0) @ [downloaded_msg e]"
  proof (cases "800 \<le> d1")
    case True
    with assms show ?thesis by (intro check_then_download_late) simp_all
  next
    case False
    with assms show ?thesis by (intro check_then_download_early) simp_all
  qed
  then have "sent (run Simulating e
            [Invoke UpdateCheck oc1, Elapse d1, Invoke UpdateDownload oc2, Elapse d2] s)
       = sent s
         @ [(''checking-for-update'', JUndefined),
            (''update-available'',
               JObj [(''version'', JStr (getVersion e @ ''-dev'')),
                     (''releaseName'', JStr (''dev-simulated-'' @ getVersion e))])]
         @ map (\<lambda>p. (''download-progress'', JObj [(''percent'', JNum (int p))]))
             (sim_percents e (draws s) 0)
         @ [(''update-downloaded'', JObj [(''version'', JStr (getVersion e @ ''-dev''))])]"
    by (simp add: available_msg_def downloaded_msg_def progress_msg_def [abs_def])
  moreover have "sim_percents e (draws s) 0 \<noteq> []" by (rule sim_percents_nonempty)
  moreover have "sorted (sim_percents e (draws s) 0)" by (rule sim_percents_sorted)
  moreover have "last (sim_percents e (draws s) 0) = 100" by (rule sim_percents_last)
  ultimately show ?thesis by blast
qed

theorem simulated_check_then_download_witness:
  "\<not> isPackaged dev_env \<and> listening (run Simulating dev_env [AppReady] initial) \<and>
   mainWindow (run Simulating dev_env [AppReady] initial) = Some 0 \<and>
   timers (run Simulating dev_env [AppReady] initial) = [] \<and> (500::nat) < 600 \<and>
   (6300::nat) \<le> 6300 \<and>
   (\<exists>ps. ps \<noteq> [] \<and> sorted ps \<and> last ps = 100 \<and>
     sent (run Simulating dev_env
            [Invoke UpdateCheck (Returns JNull), Elapse 600,
             Invoke UpdateDownload (Returns JNull), Elapse 6300]
            (run Simulating dev_env [AppReady] initial))
       = sent (run Simulating dev_env [AppReady] initial)
         @ [(''checking-for-update'', JUndefined),
            (''update-available'',
               JObj [(''version'', JStr (getVersion dev_env @ ''-dev'')),
                     (''releaseName'', JStr (''dev-simulated-'' @ getVersion dev_env))])]
         @ map (\<lambda>p. (''download-progress'', JObj [(''percent'', JNum (int p))])) ps
         @ [(''update-downloaded'', JObj [(''version'', JStr (getVersion dev_env @ ''-dev''))])])"
proof -
  have h1: "\<not> isPackaged dev_env" by (simp add: dev_env_def)
  have h2: "listening (run Simulating dev_env [AppReady] initial)"
    by (simp add: initial_def createWindow_def)
  have h3: "mainWindow (run Simulating dev_env [AppReady] initial) = Some 0"
    by (simp add: initial_def createWindow_def)
  have h4: "timers (run Simulating dev_env [AppReady] initial) = []"
    by (simp add: initial_def createWindow_def)
  have h5: "(500::nat) < 600" by simp
  have h6: "(6300::nat) \<le> 6300" by simp
  show ?thesis
    using h1 h2 h3 h4 simulated_check_then_download [OF h1 h2 h3 h4 h5 h6]
    by simp
qed

text \<open>
  Without the delay the claim fails: when download is invoked right after check has
  returned, the first two progress samples (at 300 and 600 ms) are forwarded before the
  simulated \<^verbatim>\<open>update-available\<close> (at 800 ms).
\<close>

theorem check_then_immediate_download_counterexample:
  "sent (run Simulating dev_env
      [AppReady, Invoke UpdateCheck (Returns JNull), Invoke UpdateDownload (Returns JNull),
       Elapse 6300] initial)
   = [(''checking-for-update'', JUndefined),
      (''download-progress'', JObj [(''percent'', JNum 24)]),
      (''download-progress'', JObj [(''percent'', JNum 48)]),
      (''update-available'',
        JObj [(''version'', JStr ''1.0.0-dev''), (''releaseName'', JStr ''dev-simulated-1.0.0'')]),
      (''download-progress'', JObj [(''percent'', JNum 72)]),
      (''download-progress'', JObj [(''percent'', JNum 96)]),
      (''download-progress'', JObj [(''percent'', JNum 100)]),
      (''update-downloaded'', JObj [(''version'', JStr ''1.0.0-dev'')])]"
  by (simp add: run_until.simps dev_env_def initial_def createWindow_def update_check_sim_def
     update_download_sim_def send_def arm_def disarm_def Let_def)

subsection \<open>The request handlers and the update state\<close>

lemma sent_call_lib [simp]: "sent (call_lib c s) = sent s"
  by (simp add: call_lib_def)

text \<open>
  C2 (as amended): the main process keeps no update state, and the \<^verbatim>\<open>update-install\<close>
  handler consults none. In every state in which the handlers are registered, an
  invocation calls \<^verbatim>\<open>quitAndInstall\<close> exactly once; it returns \<^verbatim>\<open>{ ok: true }\<close> when that call
  returns and \<^verbatim>\<open>{ error: message }\<close> only when the call throws.
\<close>

theorem install_calls_quitAndInstall_in_every_state:
  assumes "listening s"
  shows "lib_calls (main_step v e (Invoke UpdateInstall oc) s) = lib_calls s @ [QuitAndInstall] \<and>
     replies (main_step v e (Invoke UpdateInstall oc) s)
       = replies s @ [Inr (case oc of
                             Returns r \<Rightarrow> JObj [(''ok'', JBool True)]
                           | Throws message \<Rightarrow> JObj [(''error'', JStr message)])]"
  using assms
  by (cases oc) (simp_all add: update_install_def call_lib_def error_object_def)

theorem install_calls_quitAndInstall_in_every_state_witness:
  "listening (run Plain packaged_env [AppReady] initial) \<and>
   lib_calls (main_step Plain packaged_env (Invoke UpdateInstall (Throws ''no update''))
      (run Plain packaged_env [AppReady] initial))
     = lib_calls (run Plain packaged_env [AppReady] initial) @ [QuitAndInstall] \<and>
   replies (main_step Plain packaged_env (Invoke UpdateInstall (Throws ''no update''))
      (run Plain packaged_env [AppReady] initial))
     = replies (run Plain packaged_env [AppReady] initial)
         @ [Inr (JObj [(''error'', JStr ''no update'')])]"
proof -
  have h: "listening (run Plain packaged_env [AppReady] initial)"
    by (simp add: initial_def createWindow_def)
  show ?thesis
    using h install_calls_quitAndInstall_in_every_state
      [OF h, of Plain packaged_env "Throws ''no update''"]
    by simp
qed

text \<open>
  The claim as stated fails: after a check that found an update, and before any download
  (no \<^verbatim>\<open>update-downloaded\<close> callback has occurred), install calls \<^verbatim>\<open>quitAndInstall\<close> and
  answers \<^verbatim>\<open>{ ok: true }\<close>.
\<close>

theorem install_before_download_counterexample:
  "lib_calls (run Plain packaged_env
      [AppReady, Invoke UpdateCheck (Returns JNull), Updater CheckingForUpdate,
       Updater (UpdateAvailable (JObj [(''version'', JStr ''1.0.1'')])),
       Invoke UpdateInstall (Returns JUndefined)] initial)
     = [CheckForUpdates, QuitAndInstall] \<and>
   replies (run Plain packaged_env
      [AppReady, Invoke UpdateCheck (Returns JNull), Updater CheckingForUpdate,
       Updater (UpdateAvailable (JObj [(''version'', JStr ''1.0.1'')])),
       Invoke UpdateInstall (Returns JUndefined)] initial)
     = [Inr JNull, Inr (JObj [(''ok'', JBool True)])]"
  by (simp add: initial_def createWindow_def update_check_def update_install_def
      call_lib_def send_def)

text \<open>
  C3 (as amended): the \<^verbatim>\<open>update-download\<close> handler consults no update state either. In
  every state in which the handlers are registered, the version with the simulator, when
  the app is not packaged, answers \<^verbatim>\<open>{ simulated: true }\<close>, calls no library function and
  arms the progress interval (first tick 300 ms later, \<^verbatim>\<open>pct\<close> starting at 0); otherwise the
  handler calls the library's \<^verbatim>\<open>downloadUpdate\<close> once and answers with its result, or with
  \<^verbatim>\<open>{ error: message }\<close> when it throws. The handler itself sends nothing.
\<close>

theorem download_handler_in_every_state:
  assumes "listening s"
  shows "(if v = Simulating \<and> \<not> isPackaged e
      then replies (main_step v e (Invoke UpdateDownload oc) s)
             = replies s @ [Inr (JObj [(''simulated'', JBool True)])] \<and>
           lib_calls (main_step v e (Invoke UpdateDownload oc) s) = lib_calls s \<and>
           timers (main_step v e (Invoke UpdateDownload oc) s)
             = timers s @ [Timer (next_timer s) (clock s + 300) (SimDownload 0)]
      else replies (main_step v e (Invoke UpdateDownload oc) s)
             = replies s @ [Inr (case oc of
                                   Returns r \<Rightarrow> r
                                 | Throws message \<Rightarrow> JObj [(''error'', JStr message)])] \<and>
           lib_calls (main_step v e (Invoke UpdateDownload oc) s)
             = lib_calls s @ [DownloadUpdate] \<and>
           timers (main_step v e (Invoke UpdateDownload oc) s) = timers s) \<and>
     sent (main_step v e (Invoke UpdateDownload oc) s) = sent s"
  using assms
  by (cases v; cases oc)
     (simp_all add: update_download_def update_download_sim_def call_lib_def error_object_def
        arm_def)

theorem download_handler_in_every_state_witness:
  "listening (run Simulating dev_env [AppReady] initial) \<and>
   replies (main_step Simulating dev_env (Invoke UpdateDownload (Returns JNull))
       (run Simulating dev_env [AppReady] initial))
     = [Inr (JObj [(''simulated'', JBool True)])] \<and>
   lib_calls (main_step Simulating dev_env (Invoke UpdateDownload (Returns JNull))
       (run Simulating dev_env [AppReady] initial)) = [] \<and>
   timers (main_step Simulating dev_env (Invoke UpdateDownload (Returns JNull))
       (run Simulating dev_env [AppReady] initial)) = [Timer 0 300 (SimDownload 0)] \<and>
   sent (main_step Simulating dev_env (Invoke UpdateDownload (Returns JNull))
       (run Simulating dev_env [AppReady] initial)) = []"
proof -
  have h: "listening (run Simulating dev_env [AppReady] initial)"
    by (simp add: initial_def createWindow_def)
  have d: "\<not> isPackaged dev_env" by (simp add: dev_env_def)
  show ?thesis
    using h d download_handler_in_every_state [OF h, of Simulating dev_env "Returns JNull"]
    by (simp add: initial_def createWindow_def)
qed

text \<open>
  The claim as stated fails: in dev mode a download invoked before any check (no update
  is available) is answered with \<^verbatim>\<open>{ simulated: true }\<close>, not an error, and progress samples
  follow.
\<close>

theorem download_before_check_counterexample:
  "replies (run Simulating dev_env
      [AppReady, Invoke UpdateDownload (Returns JNull), Elapse 600] initial)
     = [Inr (JObj [(''simulated'', JBool True)])] \<and>
   \<not> is_error_payload (JObj [(''simulated'', JBool True)]) \<and>
   sent (run Simulating dev_env
      [AppReady, Invoke UpdateDownload (Returns JNull), Elapse 600] initial)
     = [(''download-progress'', JObj [(''percent'', JNum 24)]),
        (''download-progress'', JObj [(''percent'', JNum 48)])]"
  by (simp add: run_until.simps dev_env_def initial_def createWindow_def
      update_download_sim_def send_def arm_def disarm_def Let_def)






section \<open>Properties of the bridge\<close>

lemma unbridged_step:
  "channel \<notin> set validChannels \<Longrightarrow> unbridged channel r \<Longrightarrow>
   unbridged channel (renderer_step a r)"
proof (cases a)
  case (Message c d)
  assume "unbridged channel r"
  then show ?thesis
    using Message
    by (auto simp: unbridged_def ipcRenderer_emit_def list_all_iff split: callback.splits)
qed (auto simp: unbridged_def updates_on_def updates_once_def updates_removeAllListeners_def
       ipcRenderer_on_def ipcRenderer_once_def ipcRenderer_removeAllListeners_def list_all_iff)

lemma unbridged_run:
  "channel \<notin> set validChannels \<Longrightarrow> unbridged channel r \<Longrightarrow>
   unbridged channel (renderer_run as r)"
  by (induction as arbitrary: r) (simp_all add: unbridged_step)

lemma unbridged_initial: "unbridged channel renderer_initial"
  by (simp add: unbridged_def renderer_initial_def)

text \<open>
  C8: for a channel that is not in the allow-list, whatever the UI subscribes through the
  bridge (\<^verbatim>\<open>on\<close>, \<^verbatim>\<open>once\<close>), whatever else happens in the renderer process and whatever
  messages arrive, no listener passed to the bridge is ever invoked for a message on that
  channel.
\<close>

theorem unlisted_channel_never_invokes_listener:
  assumes "channel \<notin> set validChannels"
  shows "(channel, Bridged listener, data) \<notin> set (invoked (renderer_run as renderer_initial))"
proof -
  have "unbridged channel (renderer_run as renderer_initial)"
    using assms unbridged_initial by (rule unbridged_run)
  then show ?thesis
    by (auto simp: unbridged_def list_all_iff)
qed

theorem unlisted_channel_never_invokes_listener_witness:
  "''ping'' \<notin> set validChannels \<and>
   (''ping'', Bridged 1, JStr ''pong'') \<notin> set (invoked (renderer_run
      [CallOn ''ping'' 1, CallOnce ''ping'' 1, ForeignOn ''ping'' 2,
       Message ''ping'' (JStr ''pong''), Message ''ping'' (JStr ''pong'')] renderer_initial))"
proof -
  have h: "''ping'' \<notin> set validChannels" by (simp add: validChannels_def)
  show ?thesis
    using h unlisted_channel_never_invokes_listener [OF h] by (rule conjI)
qed

text \<open>
  C1: \<^verbatim>\<open>on\<close> and \<^verbatim>\<open>once\<close> ignore a channel that is not in the allow-list, but
  \<^verbatim>\<open>removeAllListeners\<close> has no such check: called with the channel \<^verbatim>\<open>ping\<close>, which is not in
  the allow-list, it removes the callback registered there, which then misses the next
  message.
\<close>

theorem removeAllListeners_unlisted_channel:
  "''ping'' \<notin> set validChannels \<and>
   listeners (renderer_run [ForeignOn ''ping'' 2] renderer_initial) ''ping''
     = [Registration False (Foreign 2)] \<and>
   listeners (renderer_run [ForeignOn ''ping'' 2, CallRemoveAll ''ping''] renderer_initial) ''ping''
     = [] \<and>
   invoked (renderer_run [ForeignOn ''ping'' 2, CallRemoveAll ''ping'', Message ''ping'' JNull]
      renderer_initial) = []"
  by (simp add: validChannels_def renderer_initial_def ipcRenderer_on_def
      updates_removeAllListeners_def ipcRenderer_removeAllListeners_def ipcRenderer_emit_def)

lemma subscribe_unlisted_channel_ignored:
  "channel \<notin> set validChannels \<Longrightarrow>
   updates_on channel listener r = r \<and> updates_once channel listener r = r"
  by (simp add: updates_on_def updates_once_def)

section \<open>Properties of the UI\<close>

lemma buttons_versions_list [simp]: "buttons (versions_list vs) = []"
  by (simp add: versions_list_def)

lemma buttons_app_versions [simp]: "buttons (app_versions st) = []"
  by (simp add: app_versions_def)

lemma buttons_check_button [simp]:
  "buttons (check_button st) =
     [(StartCheck, if checking st then ''Checking...'' else ''Check for updates'', checking st)]"
  by (simp add: check_button_def)

lemma buttons_update_msg [simp]: "concat (map buttons (update_msg st)) = []"
  by (cases "notAvailableMessage st") (simp_all add: update_msg_def)

lemma buttons_download_notification [simp]:
  "concat (map buttons (download_notification st)) =
     (if updateAvailable st \<and> \<not> downloaded st then [(StartDownload, ''Download'', False)] else [])"
  by (cases "downloadProgress st") (simp_all add: download_notification_def)

lemma buttons_install_notification [simp]:
  "concat (map buttons (install_notification st)) =
     (if downloaded st then [(InstallAndRelaunch, ''Install and Relaunch'', False)] else [])"
  by (simp add: install_notification_def)

lemma buttons_Versions:
  "buttons (Versions vs st) =
     [(StartCheck, if checking st then ''Checking...'' else ''Check for updates'', checking st)]
     @ (if updateAvailable st \<and> \<not> downloaded st then [(StartDownload, ''Download'', False)] else [])
     @ (if downloaded st then [(InstallAndRelaunch, ''Install and Relaunch'', False)] else [])"
  by (simp add: Versions_def)

lemma buttons_Versions_debug:
  "buttons (Versions_debug vs st) =
     [(StartCheck, if checking st then ''Checking...'' else ''Check for updates'', checking st),
      (ShowAppVersion, ''Show app version'', False)]
     @ (if updateAvailable st \<and> \<not> downloaded st then [(StartDownload, ''Download'', False)] else [])
     @ (if downloaded st then [(InstallAndRelaunch, ''Install and Relaunch'', False)] else [])"
  by (simp add: Versions_debug_def)

text \<open>
  C9: in every state of the component, and in both of its versions, the Download button is
  rendered exactly when \<^verbatim>\<open>updateAvailable\<close> holds and \<^verbatim>\<open>downloaded\<close> does not, the Install and
  Relaunch button exactly when \<^verbatim>\<open>downloaded\<close> holds, and there is one Check button, which is
  disabled exactly when \<^verbatim>\<open>checking\<close> holds.
\<close>

theorem render_rule:
  "rendered StartDownload (Versions vs st) = (updateAvailable st \<and> \<not> downloaded st) \<and>
   rendered InstallAndRelaunch (Versions vs st) = downloaded st \<and>
   disabled_flags StartCheck (Versions vs st) = [checking st] \<and>
   rendered StartDownload (Versions_debug vs st) = (updateAvailable st \<and> \<not> downloaded st) \<and>
   rendered InstallAndRelaunch (Versions_debug vs st) = downloaded st \<and>
   disabled_flags StartCheck (Versions_debug vs st) = [checking st]"
  by (auto simp: rendered_def disabled_flags_def buttons_Versions buttons_Versions_debug)

end
